theory Spec2Isabelle
  imports
    Complex_Main
    "HOL-Library.Sublist"
    "HOL-Library.Multiset"
    "HOL-Library.List_Lexorder"
    "HOL-Library.Char_ord"
    "HOL-Library.Product_Lexorder"
begin

section \<open>The FreshKart daily sales pipeline (pipeline.py)\<close>

text \<open>
  A data frame is a list of rows, in row order; a row is a record with one field per
  column. Identifiers, cities, channels, statuses and timestamps are strings, quantities
  are integers, and prices and amounts are exact decimal numbers (type \<open>rat\<close>): every
  cell of an input file holds a value, so the rounding of binary floating point and
  missing input cells are outside this model. The grouping key order of pandas (\<open>sort=True\<close>) is the
  lexicographic order on strings and on tuples of strings.
\<close>

subsection \<open>Rows\<close>

text \<open>A row of customers.csv.\<close>

record customer =
  customer_id :: string
  city :: string
  is_active :: bool

text \<open>An element of the \<open>items\<close> array of an order of orders_DATE.json.\<close>

record line =
  qty :: int
  unit_price :: rat

text \<open>An order of orders_DATE.json, and so a row of \<open>df_orders\<close>.\<close>

record order =
  order_id :: string
  customer_id :: string
  channel :: string
  created_at :: string
  payment_status :: string
  items :: "line list"

text \<open>A row of \<open>df_items\<close>: one line with the fields of its order copied onto it.\<close>

record item =
  qty :: int
  unit_price :: rat
  order_id :: string
  customer_id :: string
  channel :: string
  created_at :: string
  payment_status :: string

text \<open>A row of \<open>df_items_full\<close>: an item with the customer's city and its line total.\<close>

record item_full = item +
  city :: string
  line_total :: rat

text \<open>A row of refunds.csv.\<close>

record refund =
  order_id :: string
  amount :: rat

text \<open>A row of \<open>df_refunds_agg\<close>.\<close>

record refund_agg =
  order_id :: string
  refunds_amount :: rat

text \<open>
  A row of \<open>df_order_revenue\<close>: as the group-by of \<open>enrich_and_calculate\<close> builds it,
  then with the refund columns, then with the date and the item count that
  \<open>aggregate_daily\<close> attaches. A missing \<open>items_sold\<close> cell (NaN) is \<open>None\<close>.
\<close>

record order_revenue =
  order_id :: string
  gross_revenue :: rat
  customer_id :: string
  channel :: string
  city :: string
  created_at :: string

record order_revenue_net = order_revenue +
  refunds_amount :: rat
  net_revenue :: rat

record order_revenue_out = order_revenue_net +
  date :: string
  items_sold :: "int option"

text \<open>A row of \<open>df_items_count\<close>.\<close>

record items_count =
  order_id :: string
  items_sold :: int

text \<open>A row of \<open>df_daily_summary\<close>.\<close>

record daily_summary =
  date :: string
  city :: string
  channel :: string
  orders_count :: nat
  unique_customers :: nat
  items_sold :: int
  gross_revenue_eur :: rat
  refunds_eur :: rat
  net_revenue_eur :: rat

subsection \<open>Data frame operations\<close>

text \<open>\<open>DataFrame.query\<close> with a row predicate keeps the rows that satisfy it, in order.\<close>

definition query :: "('a \<Rightarrow> bool) \<Rightarrow> 'a list \<Rightarrow> 'a list" where
  "query p df = filter p df"

text \<open>
  \<open>drop_duplicates(subset=key, keep="first")\<close>: one pass over the rows with the keys
  seen so far; a row whose key was seen is dropped.
\<close>

fun drop_duplicates_from :: "('a \<Rightarrow> 'k) \<Rightarrow> 'k list \<Rightarrow> 'a list \<Rightarrow> 'a list" where
  "drop_duplicates_from key seen [] = []"
| "drop_duplicates_from key seen (r # df) =
     (if key r \<in> set seen then drop_duplicates_from key seen df
      else r # drop_duplicates_from key (key r # seen) df)"

definition drop_duplicates :: "('a \<Rightarrow> 'k) \<Rightarrow> 'a list \<Rightarrow> 'a list" where
  "drop_duplicates key df = drop_duplicates_from key [] df"

text \<open>\<open>Series.unique\<close>: the distinct values in order of first appearance.\<close>

definition unique :: "'k list \<Rightarrow> 'k list" where
  "unique col = drop_duplicates (\<lambda>v. v) col"

text \<open>
  \<open>merge(how="inner")\<close>: every left row paired with every right row of the same key,
  in the order of the left rows.
\<close>

definition merge_inner :: "('a \<Rightarrow> 'k) \<Rightarrow> ('b \<Rightarrow> 'k) \<Rightarrow> 'a list \<Rightarrow> 'b list \<Rightarrow> ('a \<times> 'b) list" where
  "merge_inner lkey rkey left right =
     concat (map (\<lambda>l. map (\<lambda>r. (l, r)) (filter (\<lambda>r. rkey r = lkey l) right)) left)"

text \<open>
  \<open>merge(how="left")\<close>: as the inner merge, but a left row without a match is kept once,
  with the right columns missing.
\<close>

definition merge_left :: "('a \<Rightarrow> 'k) \<Rightarrow> ('b \<Rightarrow> 'k) \<Rightarrow> 'a list \<Rightarrow> 'b list \<Rightarrow> ('a \<times> 'b option) list" where
  "merge_left lkey rkey left right =
     concat (map (\<lambda>l. case filter (\<lambda>r. rkey r = lkey l) right of
                          [] \<Rightarrow> [(l, None)]
                        | ms \<Rightarrow> map (\<lambda>r. (l, Some r)) ms) left)"

text \<open>
  \<open>groupby(key)\<close>: the rows are distributed over groups, one per key; the groups are
  kept in ascending key order and each group keeps its rows in row order. A group is
  its key, its first row and its later rows, so a group is never empty.
\<close>

fun group_insert :: "'k::linorder \<Rightarrow> 'a \<Rightarrow> ('k \<times> 'a \<times> 'a list) list \<Rightarrow> ('k \<times> 'a \<times> 'a list) list" where
  "group_insert k r [] = [(k, r, [])]"
| "group_insert k r ((k', r0, rs) # gs) =
     (if k = k' then (k', r0, rs @ [r]) # gs
      else if k < k' then (k, r, []) # (k', r0, rs) # gs
      else (k', r0, rs) # group_insert k r gs)"

definition groupby :: "('a \<Rightarrow> 'k::linorder) \<Rightarrow> 'a list \<Rightarrow> ('k \<times> 'a \<times> 'a list) list" where
  "groupby key df = foldl (\<lambda>gs r. group_insert (key r) r gs) [] df"

text \<open>The rows of a group, and the rows of the group of a key (none when the key has no group).\<close>

fun group_rows :: "'k \<times> 'a \<times> 'a list \<Rightarrow> 'a list" where
  "group_rows (k, r0, rs) = r0 # rs"

fun rows_of :: "'k \<Rightarrow> ('k \<times> 'a \<times> 'a list) list \<Rightarrow> 'a list" where
  "rows_of k [] = []"
| "rows_of k (g # gs) = (if fst g = k then group_rows g else rows_of k gs)"

text \<open>The aggregations: \<open>"first"\<close> of a column of a group, and \<open>"nunique"\<close> of a column.\<close>

fun first :: "('a \<Rightarrow> 'v) \<Rightarrow> 'k \<times> 'a \<times> 'a list \<Rightarrow> 'v" where
  "first col (k, r0, rs) = col r0"

definition nunique :: "'v list \<Rightarrow> nat" where
  "nunique col = length (unique col)"

subsection \<open>load_data\<close>

text \<open>
  \<open>json_normalize(data, record_path="items", meta=[...])\<close>: one row per line of every
  order, in the order of the file, with the five order fields copied onto it. Every
  occurrence of an order in the file contributes its lines.
\<close>

definition normalize_order :: "order \<Rightarrow> item list" where
  "normalize_order ord =
     map (\<lambda>l. \<lparr>item.qty = line.qty l, item.unit_price = line.unit_price l,
               item.order_id = order.order_id ord, item.customer_id = order.customer_id ord,
               item.channel = order.channel ord, item.created_at = order.created_at ord,
               item.payment_status = order.payment_status ord\<rparr>) (items ord)"

definition json_normalize :: "order list \<Rightarrow> item list" where
  "json_normalize data = concat (map normalize_order data)"

subsection \<open>clean_data\<close>

text \<open>
  What \<open>clean_data\<close> does besides returning: it writes the rejected items to
  rejected_items_DATE.csv when there are any, and prints a notice otherwise.
\<close>

datatype rejected_output = Written "item list" | No_rejected_items


record cleaned =
  customers_clean :: "customer list"
  orders_clean :: "order list"
  items_clean :: "item list"
  rejected_csv :: rejected_output

text \<open>The paid items, the intermediate frame \<open>df_items\<close> of \<open>clean_data\<close>.\<close>

definition paid_items :: "item list \<Rightarrow> item list" where
  "paid_items df_items = query (\<lambda>i. item.payment_status i = ''paid'') df_items"

definition clean_data :: "customer list \<Rightarrow> order list \<Rightarrow> item list \<Rightarrow> cleaned" where
  "clean_data df_customers df_orders df_items =
     (let df_customers = query (\<lambda>c. is_active c) df_customers;
          df_orders = query (\<lambda>ord. order.payment_status ord = ''paid'') df_orders;
          df_items = paid_items df_items;
          df_orders = drop_duplicates order.order_id df_orders;
          df_items_clean = query (\<lambda>i. item.unit_price i \<ge> 0) df_items;
          df_items_rejected = query (\<lambda>i. item.unit_price i < 0) df_items
      in \<lparr>customers_clean = df_customers,
          orders_clean = df_orders,
          items_clean = df_items_clean,
          rejected_csv =
            (if df_items_rejected \<noteq> [] then Written df_items_rejected
             else No_rejected_items)\<rparr>)"

subsection \<open>enrich_and_calculate\<close>

definition enrich :: "item \<times> customer \<Rightarrow> item_full" where
  "enrich ic =
     (case ic of (i, c) \<Rightarrow>
        \<lparr>item.qty = item.qty i, item.unit_price = item.unit_price i,
         item.order_id = item.order_id i, item.customer_id = item.customer_id i,
         item.channel = item.channel i, item.created_at = item.created_at i,
         item.payment_status = item.payment_status i,
         item_full.city = customer.city c,
         item_full.line_total = of_int (item.qty i) * item.unit_price i\<rparr>)"

definition items_full :: "item list \<Rightarrow> customer list \<Rightarrow> item_full list" where
  "items_full df_items_clean df_customers =
     map enrich (merge_inner item.customer_id customer.customer_id df_items_clean df_customers)"

definition order_gross :: "string \<times> item_full \<times> item_full list \<Rightarrow> order_revenue" where
  "order_gross g =
     \<lparr>order_revenue.order_id = fst g,
      order_revenue.gross_revenue = sum_list (map line_total (group_rows g)),
      order_revenue.customer_id = first item.customer_id g,
      order_revenue.channel = first item.channel g,
      order_revenue.city = first item_full.city g,
      order_revenue.created_at = first item.created_at g\<rparr>"

definition refunds_agg :: "string list \<Rightarrow> refund list \<Rightarrow> refund_agg list" where
  "refunds_agg valid_orders df_refunds =
     map (\<lambda>g. \<lparr>refund_agg.order_id = fst g,
                refund_agg.refunds_amount = sum_list (map amount (group_rows g))\<rparr>)
       (groupby refund.order_id
          (query (\<lambda>r. refund.order_id r \<in> set valid_orders) df_refunds))"

text \<open>
  The two columns assigned after the left merge: a missing refund total is filled with
  0, and the net revenue is computed from the filled column.
\<close>

definition with_refunds :: "order_revenue \<times> refund_agg option \<Rightarrow> order_revenue_net" where
  "with_refunds row =
     (case row of (r, m) \<Rightarrow>
        (let filled = (case m of None \<Rightarrow> 0 | Some a \<Rightarrow> refund_agg.refunds_amount a)
         in \<lparr>order_revenue.order_id = order_revenue.order_id r,
             order_revenue.gross_revenue = gross_revenue r,
             order_revenue.customer_id = order_revenue.customer_id r,
             order_revenue.channel = order_revenue.channel r,
             order_revenue.city = order_revenue.city r,
             order_revenue.created_at = order_revenue.created_at r,
             order_revenue_net.refunds_amount = filled,
             order_revenue_net.net_revenue = gross_revenue r + filled\<rparr>))"

definition enrich_and_calculate ::
  "item list \<Rightarrow> customer list \<Rightarrow> refund list \<Rightarrow> item_full list \<times> order_revenue_net list" where
  "enrich_and_calculate df_items_clean df_customers df_refunds =
     (let df_items_full = items_full df_items_clean df_customers;
          df_order_revenue = map order_gross (groupby item.order_id df_items_full);
          valid_orders = unique (map order_revenue.order_id df_order_revenue);
          df_refunds_agg = refunds_agg valid_orders df_refunds;
          df_order_revenue =
            map with_refunds
              (merge_left order_revenue.order_id refund_agg.order_id
                 df_order_revenue df_refunds_agg)
      in (df_items_full, df_order_revenue))"

subsection \<open>aggregate_daily\<close>

text \<open>
  \<open>pd.to_datetime(created_at).dt.date\<close>: the calendar date of a timestamp, without any
  change of time zone. Timestamps are ISO 8601 strings (\<open>2024-01-15T10:00:00\<close>), whose
  date is their first ten characters; dates then compare as their strings do.
\<close>

definition to_date :: "string \<Rightarrow> string" where
  "to_date ts = take 10 ts"

text \<open>\<open>sum\<close> of a column with missing cells skips them.\<close>

definition sum_skipna :: "int option list \<Rightarrow> int" where
  "sum_skipna col = sum_list (map (\<lambda>v. case v of None \<Rightarrow> 0 | Some n \<Rightarrow> n) col)"

definition items_counts :: "item_full list \<Rightarrow> items_count list" where
  "items_counts df_items_full =
     map (\<lambda>g. \<lparr>items_count.order_id = fst g,
                items_count.items_sold = sum_list (map item.qty (group_rows g))\<rparr>)
       (groupby item.order_id df_items_full)"

definition with_date_items :: "order_revenue_net \<times> items_count option \<Rightarrow> order_revenue_out" where
  "with_date_items row =
     (case row of (r, m) \<Rightarrow>
        \<lparr>order_revenue.order_id = order_revenue.order_id r,
         order_revenue.gross_revenue = gross_revenue r,
         order_revenue.customer_id = order_revenue.customer_id r,
         order_revenue.channel = order_revenue.channel r,
         order_revenue.city = order_revenue.city r,
         order_revenue.created_at = order_revenue.created_at r,
         order_revenue_net.refunds_amount = order_revenue_net.refunds_amount r,
         order_revenue_net.net_revenue = net_revenue r,
         order_revenue_out.date = to_date (order_revenue.created_at r),
         order_revenue_out.items_sold = map_option items_count.items_sold m\<rparr>)"

definition summary_key :: "order_revenue_out \<Rightarrow> string \<times> string \<times> string" where
  "summary_key r = (order_revenue_out.date r, order_revenue.city r, order_revenue.channel r)"

definition summarize ::
  "(string \<times> string \<times> string) \<times> order_revenue_out \<times> order_revenue_out list \<Rightarrow> daily_summary" where
  "summarize g =
     (case fst g of (d, c, ch) \<Rightarrow>
        \<lparr>daily_summary.date = d,
         daily_summary.city = c,
         daily_summary.channel = ch,
         daily_summary.orders_count = length (map order_revenue.order_id (group_rows g)),
         daily_summary.unique_customers = nunique (map order_revenue.customer_id (group_rows g)),
         daily_summary.items_sold = sum_skipna (map order_revenue_out.items_sold (group_rows g)),
         daily_summary.gross_revenue_eur = sum_list (map gross_revenue (group_rows g)),
         daily_summary.refunds_eur = sum_list (map order_revenue_net.refunds_amount (group_rows g)),
         daily_summary.net_revenue_eur = sum_list (map net_revenue (group_rows g))\<rparr>)"

definition aggregate_daily ::
  "order_revenue_net list \<Rightarrow> item_full list \<Rightarrow> daily_summary list \<times> order_revenue_out list" where
  "aggregate_daily df_order_revenue df_items_full =
     (let df_items_count = items_counts df_items_full;
          df_order_revenue =
            map with_date_items
              (merge_left order_revenue.order_id items_count.order_id
                 df_order_revenue df_items_count);
          df_daily_summary = map summarize (groupby summary_key df_order_revenue)
      in (df_daily_summary, df_order_revenue))"

subsection \<open>main\<close>

text \<open>
  What a run hands to \<open>export_results\<close> and what \<open>clean_data\<close> wrote on the way: the
  rejected items, the daily summary and the order-level revenue rows. The input is the
  content of the three files: the customers, the orders of the day and the refunds.
\<close>

record run_output =
  out_rejected :: rejected_output
  out_daily_summary :: "daily_summary list"
  out_order_revenue :: "order_revenue_out list"

definition from_items :: "customer list \<Rightarrow> item list \<Rightarrow> refund list \<Rightarrow>
    daily_summary list \<times> order_revenue_out list" where
  "from_items df_customers df_items_clean df_refunds =
     (case enrich_and_calculate df_items_clean df_customers df_refunds of
        (df_items_full, df_order_revenue) \<Rightarrow> aggregate_daily df_order_revenue df_items_full)"

definition main :: "customer list \<Rightarrow> order list \<Rightarrow> refund list \<Rightarrow> run_output" where
  "main customers data refunds =
     (let df_orders = data;
          df_items = json_normalize data;
          cl = clean_data customers df_orders df_items;
          out = from_items (customers_clean cl) (items_clean cl) refunds
      in \<lparr>out_rejected = rejected_csv cl,
          out_daily_summary = fst out,
          out_order_revenue = snd out\<rparr>)"

text \<open>The frame \<open>df_items_full\<close> of a run: the valid items joined to the active customers.\<close>

definition enriched_items :: "customer list \<Rightarrow> order list \<Rightarrow> item_full list" where
  "enriched_items customers data =
     (let cl = clean_data customers data (json_normalize data)
      in items_full (items_clean cl) (customers_clean cl))"

subsection \<open>Example data\<close>

text \<open>
  The customers, orders and items of the scenarios: an active customer in Paris with a
  paid web order of two lines, one of them with a negative price, and an inactive
  customer with a paid order.
\<close>

definition cust_C1 :: customer where
  "cust_C1 = \<lparr>customer.customer_id = ''C1'', customer.city = ''Paris'', is_active = True\<rparr>"


definition order_O1 :: order where
  "order_O1 =
     \<lparr>order.order_id = ''O1'', order.customer_id = ''C1'', order.channel = ''web'',
      order.created_at = ''2024-01-15T10:00:00'', order.payment_status = ''paid'',
      items = [\<lparr>line.qty = 2, line.unit_price = 10\<rparr>, \<lparr>line.qty = 1, line.unit_price = - 5\<rparr>]\<rparr>"

definition order_O2 :: order where
  "order_O2 =
     \<lparr>order.order_id = ''O2'', order.customer_id = ''C2'', order.channel = ''app'',
      order.created_at = ''2024-01-15T11:30:00'', order.payment_status = ''paid'',
      items = [\<lparr>line.qty = 3, line.unit_price = 4\<rparr>]\<rparr>"


definition item_O1_b :: item where
  "item_O1_b =
     \<lparr>item.qty = 1, item.unit_price = - 5, item.order_id = ''O1'', item.customer_id = ''C1'',
      item.channel = ''web'', item.created_at = ''2024-01-15T10:00:00'',
      item.payment_status = ''paid''\<rparr>"

text \<open>The order-level row and the daily summary row that the first scenario expects.\<close>

definition row_O1 :: order_revenue_out where
  "row_O1 =
     \<lparr>order_revenue.order_id = ''O1'', order_revenue.gross_revenue = 20,
      order_revenue.customer_id = ''C1'', order_revenue.channel = ''web'',
      order_revenue.city = ''Paris'', order_revenue.created_at = ''2024-01-15T10:00:00'',
      order_revenue_net.refunds_amount = 0, order_revenue_net.net_revenue = 20,
      order_revenue_out.date = ''2024-01-15'', order_revenue_out.items_sold = Some 2\<rparr>"

definition summary_O1 :: daily_summary where
  "summary_O1 =
     \<lparr>daily_summary.date = ''2024-01-15'', daily_summary.city = ''Paris'',
      daily_summary.channel = ''web'', daily_summary.orders_count = 1,
      daily_summary.unique_customers = 1, daily_summary.items_sold = 2,
      daily_summary.gross_revenue_eur = 20, daily_summary.refunds_eur = 0,
      daily_summary.net_revenue_eur = 20\<rparr>"


definition refund_O1 :: refund where
  "refund_O1 = \<lparr>refund.order_id = ''O1'', amount = - 5\<rparr>"

definition refund_O9 :: refund where
  "refund_O9 = \<lparr>refund.order_id = ''O9'', amount = - 7\<rparr>"

definition row_O1_twice :: order_revenue_out where
  "row_O1_twice =
     \<lparr>order_revenue.order_id = ''O1'', order_revenue.gross_revenue = 40,
      order_revenue.customer_id = ''C1'', order_revenue.channel = ''web'',
      order_revenue.city = ''Paris'', order_revenue.created_at = ''2024-01-15T10:00:00'',
      order_revenue_net.refunds_amount = 0, order_revenue_net.net_revenue = 40,
      order_revenue_out.date = ''2024-01-15'', order_revenue_out.items_sold = Some 4\<rparr>"

section \<open>Properties of the data frame operations\<close>

lemma drop_duplicates_from_snoc:
  "drop_duplicates_from key seen (df @ [r]) =
     (if key r \<in> set seen \<union> key ` set df then drop_duplicates_from key seen df
      else drop_duplicates_from key seen df @ [r])"
  by (induction df arbitrary: seen) auto

lemma drop_duplicates_Nil: "drop_duplicates key [] = []"
  by (simp add: drop_duplicates_def)

lemma drop_duplicates_snoc:
  "drop_duplicates key (df @ [r]) =
     (if key r \<in> key ` set df then drop_duplicates key df else drop_duplicates key df @ [r])"
  by (simp add: drop_duplicates_def drop_duplicates_from_snoc)

lemma drop_duplicates_keys: "key ` set (drop_duplicates key df) = key ` set df"
  by (induction df rule: rev_induct) (auto simp: drop_duplicates_Nil drop_duplicates_snoc)

lemma drop_duplicates_distinct: "distinct (map key (drop_duplicates key df))"
proof (induction df rule: rev_induct)
  case Nil
  show ?case by (simp add: drop_duplicates_Nil)
next
  case (snoc r df)
  have "key r \<notin> key ` set df \<Longrightarrow> key r \<notin> key ` set (drop_duplicates key df)"
    by (simp add: drop_duplicates_keys)
  with snoc show ?case by (simp add: drop_duplicates_snoc)
qed

lemma drop_duplicates_ident: "distinct (map key df) \<Longrightarrow> drop_duplicates key df = df"
  by (induction df rule: rev_induct) (auto simp: drop_duplicates_Nil drop_duplicates_snoc)

lemma drop_duplicates_subseq: "subseq (drop_duplicates key df) df"
proof (induction df rule: rev_induct)
  case Nil
  show ?case by (simp add: drop_duplicates_Nil)
next
  case (snoc r df)
  show ?case
  proof (cases "key r \<in> key ` set df")
    case True
    with snoc show ?thesis by (simp add: drop_duplicates_snoc subseq_rev_drop_many[where zs="[r]"] del: image_eqI)
  next
    case False
    with snoc show ?thesis by (simp add: drop_duplicates_snoc)
  qed
qed

lemma drop_duplicates_positions:
  "drop_duplicates key df =
     map (nth df) (filter (\<lambda>i. key (df ! i) \<notin> key ` set (take i df)) [0..<length df])"
proof (induction df rule: rev_induct)
  case Nil
  show ?case by (simp add: drop_duplicates_Nil)
next
  case (snoc r df)
  let ?P = "\<lambda>df i. key (df ! i) \<notin> key ` set (take i df)"
  have a: "filter (?P (df @ [r])) [0..<length df] = filter (?P df) [0..<length df]"
    by (rule filter_cong) (auto simp: nth_append)
  have b: "map (nth (df @ [r])) (filter (?P df) [0..<length df])
         = map (nth df) (filter (?P df) [0..<length df])"
    by (rule map_cong) (auto simp: nth_append)
  have c: "?P (df @ [r]) (length df) \<longleftrightarrow> key r \<notin> key ` set df"
    by simp
  have "map (nth (df @ [r])) (filter (?P (df @ [r])) [0..<length (df @ [r])])
      = map (nth (df @ [r])) (filter (?P (df @ [r])) [0..<length df])
        @ map (nth (df @ [r])) (filter (?P (df @ [r])) [length df])"
    by simp
  also have "\<dots> = map (nth df) (filter (?P df) [0..<length df])
        @ (if key r \<in> key ` set df then [] else [r])"
    unfolding a b using c by simp
  also have "\<dots> = drop_duplicates key (df @ [r])"
    using snoc by (simp add: drop_duplicates_snoc del: image_eqI)
  finally show ?case by simp
qed

lemma clean_data_customers:
  "customers_clean (clean_data cs os df_items) = filter is_active cs"
  by (simp add: clean_data_def query_def Let_def)

lemma clean_data_orders:
  "orders_clean (clean_data cs os df_items) =
     drop_duplicates order.order_id (filter (\<lambda>ord. order.payment_status ord = ''paid'') os)"
  by (simp add: clean_data_def query_def Let_def)

lemma clean_data_items:
  "items_clean (clean_data cs os df_items) =
     filter (\<lambda>i. 0 \<le> item.unit_price i) (paid_items df_items)"
  by (simp add: clean_data_def query_def Let_def)


lemma paid_items_filter:
  "paid_items df_items = filter (\<lambda>i. item.payment_status i = ''paid'') df_items"
  by (simp add: paid_items_def query_def)


lemma group_insert_keys: "fst ` set (group_insert k r gs) = insert k (fst ` set gs)"
  by (induction k r gs rule: group_insert.induct) auto

lemma group_insert_sorted:
  "sorted_wrt (<) (map fst gs) \<Longrightarrow> sorted_wrt (<) (map fst (group_insert k r gs))"
proof (induction k r gs rule: group_insert.induct)
  case (1 k r)
  show ?case by simp
next
  case (2 k r k' r0 rs gs)
  show ?case
  proof (cases "k = k' \<or> k < k'")
    case True
    with 2 show ?thesis by auto
  next
    case False
    then have gt: "k' < k" by auto
    have "\<forall>x \<in> fst ` set (group_insert k r gs). k' < x"
      using "2.prems" gt by (auto simp: group_insert_keys)
    with 2 False show ?thesis by auto
  qed
qed

lemma rows_of_absent: "k \<notin> fst ` set gs \<Longrightarrow> rows_of k gs = []"
  by (induction gs) auto

lemma rows_of_group_insert:
  "sorted_wrt (<) (map fst gs) \<Longrightarrow>
     rows_of k' (group_insert k r gs) = (if k' = k then rows_of k gs @ [r] else rows_of k' gs)"
proof (induction k r gs rule: group_insert.induct)
  case (1 k r)
  show ?case by simp
next
  case (2 k r k0 r0 rs gs)
  show ?case
  proof (cases "k = k0")
    case True
    then show ?thesis by simp
  next
    case neq: False
    show ?thesis
    proof (cases "k < k0")
      case True
      then have "k \<notin> fst ` set gs" using "2.prems" by auto
      then have "rows_of k gs = []" by (rule rows_of_absent)
      with True neq show ?thesis by auto
    next
      case False
      with neq 2 show ?thesis by auto
    qed
  qed
qed

lemma rows_of_member:
  fixes gs :: "('k::linorder \<times> 'a \<times> 'a list) list"
  shows "sorted_wrt (<) (map fst gs) \<Longrightarrow> g \<in> set gs \<Longrightarrow> rows_of (fst g) gs = group_rows g"
proof (induction gs)
  case Nil
  then show ?case by simp
next
  case (Cons a gs)
  show ?case
  proof (cases "g = a")
    case True
    then show ?thesis by simp
  next
    case False
    with Cons.prems have mem: "g \<in> set gs" and lt: "fst a < fst g" by auto
    from lt have ne: "fst a \<noteq> fst g" by simp
    from Cons.prems have "sorted_wrt (<) (map fst gs)" by simp
    then have "rows_of (fst g) gs = group_rows g" using mem by (rule Cons.IH)
    with ne show ?thesis by simp
  qed
qed

lemma groupby_Nil: "groupby key [] = []"
  by (simp add: groupby_def)

lemma groupby_snoc: "groupby key (df @ [r]) = group_insert (key r) r (groupby key df)"
  by (simp add: groupby_def)

lemma groupby_keys: "fst ` set (groupby key df) = key ` set df"
  by (induction df rule: rev_induct) (simp_all add: groupby_Nil groupby_snoc group_insert_keys)

lemma groupby_sorted: "sorted_wrt (<) (map fst (groupby key df))"
  by (induction df rule: rev_induct) (simp_all add: groupby_Nil groupby_snoc group_insert_sorted)

lemma groupby_distinct: "distinct (map fst (groupby key df))"
  using groupby_sorted[of key df] strict_sorted_iff by blast

lemma rows_of_groupby: "rows_of k (groupby key df) = filter (\<lambda>r. key r = k) df"
  by (induction df rule: rev_induct)
    (auto simp: groupby_Nil groupby_snoc rows_of_group_insert groupby_sorted)

lemma group_rows_groupby:
  "g \<in> set (groupby key df) \<Longrightarrow> group_rows g = filter (\<lambda>r. key r = fst g) df"
  using rows_of_member[OF groupby_sorted] rows_of_groupby by metis

lemma filter_key_distinct:
  "distinct (map rkey right) \<Longrightarrow> length (filter (\<lambda>r. rkey r = k) right) \<le> 1"
proof (induction right)
  case Nil
  show ?case by simp
next
  case (Cons a right)
  show ?case
  proof (cases "rkey a = k")
    case True
    with Cons.prems have "\<forall>r \<in> set right. rkey r \<noteq> k" by (force simp: image_iff)
    then have "filter (\<lambda>r. rkey r = k) right = []" by (simp add: filter_empty_conv)
    with True show ?thesis by simp
  next
    case False
    with Cons show ?thesis by simp
  qed
qed

lemma merge_left_find:
  assumes "distinct (map rkey right)"
  shows "merge_left lkey rkey left right = map (\<lambda>l. (l, find (\<lambda>r. rkey r = lkey l) right)) left"
proof -
  have cell: "(case filter (\<lambda>r. rkey r = k) right of
                 [] \<Rightarrow> [(l, None)] | a # as \<Rightarrow> map (\<lambda>r. (l, Some r)) (a # as))
              = [(l, find (\<lambda>r. rkey r = k) right)]" for k and l :: 'c
  proof (cases "filter (\<lambda>r. rkey r = k) right")
    case Nil
    then have "find (\<lambda>r. rkey r = k) right = None"
      by (simp add: find_None_iff filter_empty_conv)
    with Nil show ?thesis by simp
  next
    case (Cons a as)
    have "length (filter (\<lambda>r. rkey r = k) right) \<le> 1"
      using assms by (rule filter_key_distinct)
    with Cons have as: "as = []" by simp
    have "find (\<lambda>r. rkey r = k) right = Some a"
      using Cons by (induction right) (auto split: if_splits)
    with Cons as show ?thesis by simp
  qed
  show ?thesis
    by (induction left) (simp_all add: merge_left_def cell)
qed

lemma find_map_key:
  "find (\<lambda>a. akey a = k) (map mk gs) = map_option mk (find (\<lambda>g. akey (mk g) = k) gs)"
  by (induction gs) auto

lemma find_group_rows:
  "(case find (\<lambda>g. fst g = k) gs of None \<Rightarrow> [] | Some g \<Rightarrow> group_rows g) = rows_of k gs"
  by (induction gs) auto

lemma find_SomeD: "find P xs = Some x \<Longrightarrow> x \<in> set xs \<and> P x"
  by (induction xs) (auto split: if_splits)

lemma find_groupby:
  assumes "find (\<lambda>g. fst g = k) (groupby key df) = Some g"
  shows "fst g = k \<and> group_rows g = filter (\<lambda>r. key r = k) df"
proof -
  from assms have "g \<in> set (groupby key df)" and k: "fst g = k"
    using find_SomeD by fastforce+
  then have "group_rows g = filter (\<lambda>r. key r = fst g) df"
    by (simp add: group_rows_groupby)
  with k show ?thesis by simp
qed

lemma find_groupby_None:
  "find (\<lambda>g. fst g = k) (groupby key df) = None \<longleftrightarrow> k \<notin> key ` set df"
proof -
  have "find (\<lambda>g. fst g = k) (groupby key df) = None \<longleftrightarrow> k \<notin> fst ` set (groupby key df)"
    unfolding find_None_iff by force
  then show ?thesis by (simp only: groupby_keys)
qed

lemma unique_set: "set (unique col) = set col"
  using drop_duplicates_keys[of "\<lambda>v. v" col] by (simp add: unique_def)

lemma unique_distinct: "distinct (unique col)"
  using drop_duplicates_distinct[of "\<lambda>v. v" col] by (simp add: unique_def)

lemma nunique_card: "nunique col = card (set col)"
  using distinct_card[OF unique_distinct, of col] by (simp add: nunique_def unique_set)

lemma order_gross_order_id: "order_revenue.order_id (order_gross g) = fst g"
  by (simp add: order_gross_def)

lemma order_gross_gross_revenue:
  "gross_revenue (order_gross g) = sum_list (map line_total (group_rows g))"
  by (simp add: order_gross_def)

lemma with_refunds_fields:
  "order_revenue.order_id (with_refunds (r, m)) = order_revenue.order_id r"
  "gross_revenue (with_refunds (r, m)) = gross_revenue r"
  "order_revenue.customer_id (with_refunds (r, m)) = order_revenue.customer_id r"
  "order_revenue.channel (with_refunds (r, m)) = order_revenue.channel r"
  "order_revenue.city (with_refunds (r, m)) = order_revenue.city r"
  "order_revenue.created_at (with_refunds (r, m)) = order_revenue.created_at r"
  "order_revenue_net.refunds_amount (with_refunds (r, m)) =
     (case m of None \<Rightarrow> 0 | Some a \<Rightarrow> refund_agg.refunds_amount a)"
  "net_revenue (with_refunds (r, m)) =
     gross_revenue r + (case m of None \<Rightarrow> 0 | Some a \<Rightarrow> refund_agg.refunds_amount a)"
  by (simp_all add: with_refunds_def Let_def)

lemma with_date_items_fields:
  "order_revenue.order_id (with_date_items (r, m)) = order_revenue.order_id r"
  "gross_revenue (with_date_items (r, m)) = gross_revenue r"
  "order_revenue.customer_id (with_date_items (r, m)) = order_revenue.customer_id r"
  "order_revenue.channel (with_date_items (r, m)) = order_revenue.channel r"
  "order_revenue.city (with_date_items (r, m)) = order_revenue.city r"
  "order_revenue.created_at (with_date_items (r, m)) = order_revenue.created_at r"
  "order_revenue_net.refunds_amount (with_date_items (r, m)) = order_revenue_net.refunds_amount r"
  "net_revenue (with_date_items (r, m)) = net_revenue r"
  "order_revenue_out.date (with_date_items (r, m)) = to_date (order_revenue.created_at r)"
  "order_revenue_out.items_sold (with_date_items (r, m)) = map_option items_count.items_sold m"
  by (simp_all add: with_date_items_def)

lemma refunds_agg_keys:
  "map refund_agg.order_id (refunds_agg v rs) =
     map fst (groupby refund.order_id (query (\<lambda>r. refund.order_id r \<in> set v) rs))"
  by (simp add: refunds_agg_def comp_def)

lemma refunds_agg_distinct: "distinct (map refund_agg.order_id (refunds_agg v rs))"
  by (simp only: refunds_agg_keys groupby_distinct)

lemma refunds_agg_lookup:
  "(case find (\<lambda>a. refund_agg.order_id a = k) (refunds_agg v rs) of
      None \<Rightarrow> 0 | Some a \<Rightarrow> refund_agg.refunds_amount a)
   = sum_list (map amount
       (filter (\<lambda>r. refund.order_id r = k) (filter (\<lambda>r. refund.order_id r \<in> set v) rs)))"
proof -
  let ?gs = "groupby refund.order_id (query (\<lambda>r. refund.order_id r \<in> set v) rs)"
  let ?mk = "\<lambda>g. \<lparr>refund_agg.order_id = fst g,
                   refund_agg.refunds_amount = sum_list (map amount (group_rows g))\<rparr>"
  have f: "find (\<lambda>a. refund_agg.order_id a = k) (refunds_agg v rs)
           = map_option ?mk (find (\<lambda>g. fst g = k) ?gs)"
    by (simp add: refunds_agg_def find_map_key)
  have "(case find (\<lambda>g. fst g = k) ?gs of None \<Rightarrow> [] | Some g \<Rightarrow> group_rows g)
        = filter (\<lambda>r. refund.order_id r = k) (query (\<lambda>r. refund.order_id r \<in> set v) rs)"
    by (simp only: find_group_rows rows_of_groupby)
  then show ?thesis
    unfolding f by (cases "find (\<lambda>g. fst g = k) ?gs") (auto simp: query_def)
qed

lemma enrich_and_calculate_items: "fst (enrich_and_calculate df cs rs) = items_full df cs"
  by (simp add: enrich_and_calculate_def Let_def)

lemma enrich_and_calculate_rows:
  "snd (enrich_and_calculate df cs rs) =
     map (\<lambda>g. with_refunds
                 (order_gross g,
                  find (\<lambda>a. refund_agg.order_id a = fst g)
                    (refunds_agg (unique (map fst (groupby item.order_id (items_full df cs)))) rs)))
       (groupby item.order_id (items_full df cs))"
  by (simp add: enrich_and_calculate_def Let_def merge_left_find[OF refunds_agg_distinct]
      comp_def order_gross_order_id)

lemma items_counts_keys:
  "map items_count.order_id (items_counts full) = map fst (groupby item.order_id full)"
  by (simp add: items_counts_def comp_def)

lemma items_counts_distinct: "distinct (map items_count.order_id (items_counts full))"
  by (simp only: items_counts_keys groupby_distinct)

lemma items_counts_lookup:
  "map_option items_count.items_sold (find (\<lambda>c. items_count.order_id c = k) (items_counts full))
   = (if k \<in> item.order_id ` set full
      then Some (sum_list (map item.qty (filter (\<lambda>i. item.order_id i = k) full)))
      else None)"
proof (cases "find (\<lambda>g. fst g = k) (groupby item.order_id full)")
  case None
  then have "k \<notin> item.order_id ` set full" by (simp add: find_groupby_None)
  with None show ?thesis by (simp add: items_counts_def find_map_key)
next
  case (Some g)
  then have "k \<in> item.order_id ` set full"
    using find_groupby_None[of k item.order_id full] by simp
  with Some find_groupby[OF Some] show ?thesis
    by (simp add: items_counts_def find_map_key)
qed

lemma aggregate_daily_rows:
  "snd (aggregate_daily orv full) =
     map (\<lambda>r. with_date_items
                 (r, find (\<lambda>c. items_count.order_id c = order_revenue.order_id r)
                       (items_counts full))) orv"
  by (simp add: aggregate_daily_def Let_def merge_left_find[OF items_counts_distinct])

lemma aggregate_daily_summary:
  "fst (aggregate_daily orv full) =
     map summarize (groupby summary_key (snd (aggregate_daily orv full)))"
  by (simp add: aggregate_daily_def Let_def)

lemma main_rejected:
  "out_rejected (main cs data rs) = rejected_csv (clean_data cs data (json_normalize data))"
  by (simp add: main_def Let_def)

lemma main_order_revenue:
  "out_order_revenue (main cs data rs) =
     map (\<lambda>g. with_date_items
                 (with_refunds
                    (order_gross g,
                     find (\<lambda>a. refund_agg.order_id a = fst g)
                       (refunds_agg
                          (unique (map fst (groupby item.order_id (enriched_items cs data)))) rs)),
                  find (\<lambda>c. items_count.order_id c = fst g)
                    (items_counts (enriched_items cs data))))
       (groupby item.order_id (enriched_items cs data))"
proof -
  let ?cl = "clean_data cs data (json_normalize data)"
  have full: "items_full (items_clean ?cl) (customers_clean ?cl) = enriched_items cs data"
    by (simp add: enriched_items_def Let_def)
  have "out_order_revenue (main cs data rs) =
          snd (aggregate_daily
                 (snd (enrich_and_calculate (items_clean ?cl) (customers_clean ?cl) rs))
                 (fst (enrich_and_calculate (items_clean ?cl) (customers_clean ?cl) rs)))"
    by (simp add: main_def Let_def from_items_def split: prod.splits)
  then show ?thesis
    by (simp add: aggregate_daily_rows enrich_and_calculate_rows enrich_and_calculate_items
        full comp_def with_refunds_fields order_gross_order_id)
qed

lemma main_daily_summary:
  "out_daily_summary (main cs data rs) =
     map summarize (groupby summary_key (out_order_revenue (main cs data rs)))"
proof -
  let ?cl = "clean_data cs data (json_normalize data)"
  let ?e = "enrich_and_calculate (items_clean ?cl) (customers_clean ?cl) rs"
  have "out_daily_summary (main cs data rs) = fst (aggregate_daily (snd ?e) (fst ?e))"
    and "out_order_revenue (main cs data rs) = snd (aggregate_daily (snd ?e) (fst ?e))"
    by (simp_all add: main_def Let_def from_items_def split: prod.splits)
  then show ?thesis
    by (simp only: aggregate_daily_summary)
qed

lemma order_row_facts:
  assumes "row \<in> set (out_order_revenue (main cs data rs))"
  shows "order_revenue.order_id row \<in> item.order_id ` set (enriched_items cs data)"
    and "gross_revenue row =
           sum_list (map line_total
             (filter (\<lambda>i. item.order_id i = order_revenue.order_id row) (enriched_items cs data)))"
    and "order_revenue_net.refunds_amount row =
           sum_list (map amount
             (filter (\<lambda>r. refund.order_id r = order_revenue.order_id row) rs))"
    and "net_revenue row = gross_revenue row + order_revenue_net.refunds_amount row"
    and "order_revenue_out.items_sold row =
           Some (sum_list (map item.qty
             (filter (\<lambda>i. item.order_id i = order_revenue.order_id row) (enriched_items cs data))))"
proof -
  let ?full = "enriched_items cs data"
  let ?gs = "groupby item.order_id ?full"
  let ?v = "unique (map fst ?gs)"
  from assms obtain g where g: "g \<in> set ?gs"
    and row: "row = with_date_items
                 (with_refunds
                    (order_gross g,
                     find (\<lambda>a. refund_agg.order_id a = fst g) (refunds_agg ?v rs)),
                  find (\<lambda>c. items_count.order_id c = fst g) (items_counts ?full))"
    unfolding main_order_revenue by auto
  have oid: "order_revenue.order_id row = fst g"
    by (simp add: row with_date_items_fields with_refunds_fields order_gross_order_id)
  have key: "fst g \<in> item.order_id ` set ?full"
    using g groupby_keys[of item.order_id ?full] by force
  have valid: "fst g \<in> set ?v"
    using g by (simp add: unique_set)
  have rows: "group_rows g = filter (\<lambda>i. item.order_id i = fst g) ?full"
    using g by (rule group_rows_groupby)
  show "order_revenue.order_id row \<in> item.order_id ` set ?full"
    using key oid by simp
  show "gross_revenue row =
           sum_list (map line_total
             (filter (\<lambda>i. item.order_id i = order_revenue.order_id row) ?full))"
    unfolding oid
    by (simp add: row with_date_items_fields with_refunds_fields order_gross_gross_revenue rows)
  have same: "filter (\<lambda>r. refund.order_id r = fst g) (filter (\<lambda>r. refund.order_id r \<in> set ?v) rs)
        = filter (\<lambda>r. refund.order_id r = fst g) rs"
    using valid by (auto intro: filter_cong)
  show "order_revenue_net.refunds_amount row =
           sum_list (map amount
             (filter (\<lambda>r. refund.order_id r = order_revenue.order_id row) rs))"
    unfolding oid
    by (simp only: row with_date_items_fields with_refunds_fields refunds_agg_lookup same)
  show "net_revenue row = gross_revenue row + order_revenue_net.refunds_amount row"
    by (simp add: row with_date_items_fields with_refunds_fields)
  show "order_revenue_out.items_sold row =
           Some (sum_list (map item.qty
             (filter (\<lambda>i. item.order_id i = order_revenue.order_id row) ?full)))"
    unfolding oid using key
    by (simp add: row with_date_items_fields items_counts_lookup)
qed

lemma main_order_ids:
  "map order_revenue.order_id (out_order_revenue (main cs data rs)) =
     map fst (groupby item.order_id (enriched_items cs data))"
  by (simp add: main_order_revenue comp_def with_date_items_fields with_refunds_fields
      order_gross_order_id)

lemma run_O1:
  "main [cust_C1] [order_O1] [] =
     \<lparr>out_rejected = Written [item_O1_b], out_daily_summary = [summary_O1],
      out_order_revenue = [row_O1]\<rparr>"
  by code_simp

lemma summarize_fields:
  "daily_summary.date (summarize g) = fst (fst g)"
  "daily_summary.city (summarize g) = fst (snd (fst g))"
  "daily_summary.channel (summarize g) = snd (snd (fst g))"
  "orders_count (summarize g) = length (group_rows g)"
  "unique_customers (summarize g) = nunique (map order_revenue.customer_id (group_rows g))"
  "daily_summary.items_sold (summarize g)
     = sum_skipna (map order_revenue_out.items_sold (group_rows g))"
  "gross_revenue_eur (summarize g) = sum_list (map gross_revenue (group_rows g))"
  "refunds_eur (summarize g) = sum_list (map order_revenue_net.refunds_amount (group_rows g))"
  "net_revenue_eur (summarize g) = sum_list (map net_revenue (group_rows g))"
  by (simp_all add: summarize_def split: prod.splits)

lemma summary_row_members:
  assumes "s \<in> set (out_daily_summary (main cs data rs))"
  obtains g where "s = summarize g"
    and "group_rows g =
           filter (\<lambda>r. summary_key r =
                     (daily_summary.date s, daily_summary.city s, daily_summary.channel s))
             (out_order_revenue (main cs data rs))"
proof -
  from assms obtain g where g: "g \<in> set (groupby summary_key (out_order_revenue (main cs data rs)))"
    and s: "s = summarize g"
    unfolding main_daily_summary by auto
  have "fst g = (daily_summary.date s, daily_summary.city s, daily_summary.channel s)"
    by (simp add: s summarize_fields)
  with group_rows_groupby[OF g] s that show thesis by simp
qed


lemma merge_inner_left:
  "(l, r) \<in> set (merge_inner lkey rkey left right) \<Longrightarrow>
     l \<in> set left \<and> r \<in> set right \<and> rkey r = lkey l"
  by (auto simp: merge_inner_def)




lemma enrich_item_fields:
  "item.order_id (enrich (i, c)) = item.order_id i"
  "item.customer_id (enrich (i, c)) = item.customer_id i"
  "item.qty (enrich (i, c)) = item.qty i"
  "item.unit_price (enrich (i, c)) = item.unit_price i"
  "item_full.city (enrich (i, c)) = customer.city c"
  "line_total (enrich (i, c)) = of_int (item.qty i) * item.unit_price i"
  by (simp_all add: enrich_def)

lemma items_full_member:
  assumes "e \<in> set (items_full df cc)"
  obtains i c where "i \<in> set df" "c \<in> set cc" "customer.customer_id c = item.customer_id i"
    "e = enrich (i, c)"
  using assms merge_inner_left[of _ _ item.customer_id customer.customer_id df cc]
  by (auto simp: items_full_def)



lemma normalize_order_fields:
  "i \<in> set (normalize_order ord) \<Longrightarrow>
     item.order_id i = order.order_id ord \<and> item.customer_id i = order.customer_id ord
     \<and> item.payment_status i = order.payment_status ord"
  by (auto simp: normalize_order_def)

lemma json_normalize_member:
  assumes "i \<in> set (json_normalize data)"
  obtains ord where "ord \<in> set data" "i \<in> set (normalize_order ord)"
  using assms by (auto simp: json_normalize_def)

lemma enriched_items_eq:
  "enriched_items cs data =
     items_full
       (filter (\<lambda>i. 0 \<le> item.unit_price i) (paid_items (json_normalize data)))
       (filter is_active cs)"
  by (simp add: enriched_items_def Let_def clean_data_items clean_data_customers)


lemma enriched_order_ids:
  "item.order_id ` set (enriched_items cs data)
     \<subseteq> order.order_id ` set (orders_clean (clean_data cs data (json_normalize data)))"
proof
  fix k
  assume "k \<in> item.order_id ` set (enriched_items cs data)"
  then obtain e where e: "e \<in> set (enriched_items cs data)" and k: "k = item.order_id e"
    by auto
  from e obtain i c where i: "i \<in> set (paid_items (json_normalize data))" and ei: "e = enrich (i, c)"
    unfolding enriched_items_eq by (elim items_full_member) auto
  from i have paid: "item.payment_status i = ''paid''" and "i \<in> set (json_normalize data)"
    by (simp_all add: paid_items_filter)
  then obtain ord where ord: "ord \<in> set data" and "i \<in> set (normalize_order ord)"
    by (elim json_normalize_member)
  then have f: "item.order_id i = order.order_id ord" "item.payment_status i = order.payment_status ord"
    using normalize_order_fields by blast+
  with paid ord have "ord \<in> set (filter (\<lambda>ord. order.payment_status ord = ''paid'') data)"
    by simp
  then have "order.order_id ord \<in> order.order_id `
               set (drop_duplicates order.order_id
                      (filter (\<lambda>ord. order.payment_status ord = ''paid'') data))"
    unfolding drop_duplicates_keys by (rule imageI)
  then show "k \<in> order.order_id ` set (orders_clean (clean_data cs data (json_normalize data)))"
    by (simp add: clean_data_orders k ei enrich_item_fields f)
qed

lemma refunds_agg_drop:
  assumes "refund.order_id r \<notin> set v"
  shows "refunds_agg v (rs1 @ r # rs2) = refunds_agg v (rs1 @ rs2)"
  using assms by (simp add: refunds_agg_def query_def)

lemma main_refunds_cong:
  assumes "refunds_agg (unique (map fst (groupby item.order_id (enriched_items cs data)))) rs
         = refunds_agg (unique (map fst (groupby item.order_id (enriched_items cs data)))) rs'"
  shows "main cs data rs = main cs data rs'"
proof -
  have "out_order_revenue (main cs data rs) = out_order_revenue (main cs data rs')"
    by (simp only: main_order_revenue assms)
  moreover from this
  have "out_daily_summary (main cs data rs) = out_daily_summary (main cs data rs')"
    by (simp only: main_daily_summary)
  moreover have "out_rejected (main cs data rs) = out_rejected (main cs data rs')"
    by (simp only: main_rejected)
  ultimately show ?thesis by simp
qed

lemma refund_not_valid_ignored:
  assumes "refund.order_id r \<notin> item.order_id ` set (enriched_items cs data)"
  shows "main cs data (rs1 @ r # rs2) = main cs data (rs1 @ rs2)"
proof (rule main_refunds_cong, rule refunds_agg_drop)
  show "refund.order_id r \<notin> set (unique (map fst (groupby item.order_id (enriched_items cs data))))"
    using assms by (simp add: unique_set groupby_keys)
qed



section \<open>The claims\<close>

subsection \<open>Cleaning\<close>



text \<open>
  Claim C8. Dropping the duplicate orders of a frame whose order ids are pairwise
  distinct returns the frame itself, so dropping duplicates twice is dropping them once.
  In general the order ids of the result are pairwise distinct, and the result is the
  rows of the input, in input order, whose order id occurs in no earlier row.
\<close>

theorem dedupOrders_first_wins:
  "(distinct (map order.order_id df) \<longrightarrow> drop_duplicates order.order_id df = df)
   \<and> drop_duplicates order.order_id (drop_duplicates order.order_id df)
       = drop_duplicates order.order_id df
   \<and> distinct (map order.order_id (drop_duplicates order.order_id df))
   \<and> drop_duplicates order.order_id df =
       map (nth df)
         (filter (\<lambda>i. order.order_id (df ! i) \<notin> order.order_id ` set (take i df))
            [0..<length df])"
  using drop_duplicates_ident[of order.order_id df]
    drop_duplicates_ident[OF drop_duplicates_distinct, of order.order_id df]
    drop_duplicates_distinct[of order.order_id df]
    drop_duplicates_positions[of order.order_id df]
  by blast

theorem dedupOrders_first_wins_witness:
  "distinct (map order.order_id [order_O1, order_O2])
   \<and> drop_duplicates order.order_id [order_O1, order_O2] = [order_O1, order_O2]"
  using dedupOrders_first_wins[of "[order_O1, order_O2]"] by (simp add: order_O1_def order_O2_def)

text \<open>
  Claim C10. The three frames that \<open>clean_data\<close> returns are subsequences of the frames
  it was given: every returned row is a row of the input as it was, and the rows kept
  are in their input order.
\<close>

theorem clean_data_pure_filter:
  "subseq (customers_clean (clean_data cs os df_items)) cs
   \<and> subseq (orders_clean (clean_data cs os df_items)) os
   \<and> subseq (items_clean (clean_data cs os df_items)) df_items"
proof -
  have "subseq (drop_duplicates order.order_id (filter (\<lambda>ord. order.payment_status ord = ''paid'') os)) os"
    using drop_duplicates_subseq subseq_filter_left subseq_order.order_trans by blast
  moreover have "subseq (filter (\<lambda>i. 0 \<le> item.unit_price i) (paid_items df_items)) df_items"
    unfolding paid_items_filter
    using subseq_filter_left subseq_order.order_trans by blast
  ultimately show ?thesis
    by (simp add: clean_data_customers clean_data_orders clean_data_items)
qed

subsection \<open>Order-level revenue\<close>



text \<open>
  Claim C6. A row of the order-level revenue output whose order has no refund record has
  a refunds amount of 0 and a net revenue equal to its gross revenue; and the orders in
  the output, in output order, are the same whatever the refunds are, so a missing refund
  drops no order.
\<close>

theorem missing_refund_is_zero:
  "(\<forall>row \<in> set (out_order_revenue (main cs data rs)).
      order_revenue.order_id row \<notin> refund.order_id ` set rs \<longrightarrow>
        order_revenue_net.refunds_amount row = 0 \<and> net_revenue row = gross_revenue row)
   \<and> map order_revenue.order_id (out_order_revenue (main cs data rs))
       = map order_revenue.order_id (out_order_revenue (main cs data []))"
proof -
  have "order_revenue_net.refunds_amount row = 0 \<and> net_revenue row = gross_revenue row"
    if mem: "row \<in> set (out_order_revenue (main cs data rs))"
      and none: "order_revenue.order_id row \<notin> refund.order_id ` set rs" for row
  proof -
    from none have "filter (\<lambda>r. refund.order_id r = order_revenue.order_id row) rs = []"
      by (force simp: filter_empty_conv image_iff)
    with order_row_facts(3,4)[OF mem] show ?thesis by simp
  qed
  then show ?thesis
    by (auto simp only: main_order_ids)
qed

theorem missing_refund_is_zero_witness:
  "row_O1 \<in> set (out_order_revenue (main [cust_C1] [order_O1] []))
   \<and> order_revenue.order_id row_O1 \<notin> refund.order_id ` set []
   \<and> order_revenue_net.refunds_amount row_O1 = 0
   \<and> net_revenue row_O1 = gross_revenue row_O1"
proof -
  have mem: "row_O1 \<in> set (out_order_revenue (main [cust_C1] [order_O1] []))"
    by (simp add: run_O1)
  with missing_refund_is_zero[of "[cust_C1]" "[order_O1]" "[]"] show ?thesis
    by auto
qed

text \<open>
  Claim C9. The order id of every row of the order-level revenue output is the order id
  of some enriched item, so the left merge that attaches \<open>items_sold\<close> finds its match: the
  cell is never missing, and it holds the sum of the quantities of the enriched items of
  the order.
\<close>

theorem items_sold_never_missing:
  "\<forall>row \<in> set (out_order_revenue (main cs data rs)).
      order_revenue.order_id row \<in> item.order_id ` set (enriched_items cs data)
      \<and> order_revenue_out.items_sold row \<noteq> None
      \<and> order_revenue_out.items_sold row =
          Some (sum_list (map item.qty
            (filter (\<lambda>i. item.order_id i = order_revenue.order_id row)
               (enriched_items cs data))))"
  using order_row_facts(1,5)[of _ cs data rs] by auto

theorem items_sold_never_missing_witness:
  "row_O1 \<in> set (out_order_revenue (main [cust_C1] [order_O1] []))
   \<and> order_revenue.order_id row_O1 \<in> item.order_id ` set (enriched_items [cust_C1] [order_O1])
   \<and> order_revenue_out.items_sold row_O1 \<noteq> None"
proof -
  have mem: "row_O1 \<in> set (out_order_revenue (main [cust_C1] [order_O1] []))"
    by (simp add: run_O1)
  with items_sold_never_missing[of "[cust_C1]" "[order_O1]" "[]"] show ?thesis
    by blast
qed

subsection \<open>Daily summary\<close>

text \<open>
  Claim C4. For every row of the daily summary, with the member orders being the rows of
  the order-level revenue output of the same date, city and channel: the gross revenue
  of the row is the sum of the gross revenues of the member orders, the order count is
  their number, and the count of unique customers is the number of distinct customer ids
  among them, which is at most the order count.
\<close>

theorem aggregate_conservation:
  "\<forall>s \<in> set (out_daily_summary (main cs data rs)).
      gross_revenue_eur s =
        sum_list (map gross_revenue
          (filter (\<lambda>r. summary_key r =
                     (daily_summary.date s, daily_summary.city s, daily_summary.channel s))
             (out_order_revenue (main cs data rs))))
      \<and> orders_count s =
          length (filter (\<lambda>r. summary_key r =
                     (daily_summary.date s, daily_summary.city s, daily_summary.channel s))
             (out_order_revenue (main cs data rs)))
      \<and> unique_customers s =
          card (order_revenue.customer_id `
            set (filter (\<lambda>r. summary_key r =
                     (daily_summary.date s, daily_summary.city s, daily_summary.channel s))
             (out_order_revenue (main cs data rs))))
      \<and> unique_customers s \<le> orders_count s"
proof
  fix s
  assume "s \<in> set (out_daily_summary (main cs data rs))"
  then obtain g where s: "s = summarize g"
    and rows: "group_rows g =
           filter (\<lambda>r. summary_key r =
                     (daily_summary.date s, daily_summary.city s, daily_summary.channel s))
             (out_order_revenue (main cs data rs))"
    by (rule summary_row_members)
  let ?members = "filter (\<lambda>r. summary_key r =
                     (daily_summary.date s, daily_summary.city s, daily_summary.channel s))
             (out_order_revenue (main cs data rs))"
  have a: "gross_revenue_eur s = sum_list (map gross_revenue ?members)"
    using rows by (simp add: s summarize_fields)
  have b: "orders_count s = length ?members"
    using rows by (simp add: s summarize_fields)
  have c: "unique_customers s = card (order_revenue.customer_id ` set ?members)"
    using rows by (simp add: s summarize_fields nunique_card)
  have "card (set (map order_revenue.customer_id ?members))
          \<le> length (map order_revenue.customer_id ?members)"
    by (rule card_length)
  then have d: "unique_customers s \<le> orders_count s"
    using b c by simp
  from a b c d show "gross_revenue_eur s = sum_list (map gross_revenue ?members)
      \<and> orders_count s = length ?members
      \<and> unique_customers s = card (order_revenue.customer_id ` set ?members)
      \<and> unique_customers s \<le> orders_count s"
    by blast
qed

theorem aggregate_conservation_witness:
  "summary_O1 \<in> set (out_daily_summary (main [cust_C1] [order_O1] []))
   \<and> gross_revenue_eur summary_O1 = sum_list (map gross_revenue [row_O1])
   \<and> orders_count summary_O1 = length [row_O1]
   \<and> unique_customers summary_O1 \<le> orders_count summary_O1"
proof -
  have mem: "summary_O1 \<in> set (out_daily_summary (main [cust_C1] [order_O1] []))"
    by (simp add: run_O1)
  have key: "summary_key row_O1 = (''2024-01-15'', ''Paris'', ''web'')"
    by (simp add: summary_key_def row_O1_def)
  have flds: "daily_summary.date summary_O1 = ''2024-01-15''"
    "daily_summary.city summary_O1 = ''Paris''" "daily_summary.channel summary_O1 = ''web''"
    by (simp_all add: summary_O1_def)
  from mem aggregate_conservation[of "[cust_C1]" "[order_O1]" "[]"]
  show ?thesis
    by (simp add: run_O1 key flds)
qed

subsection \<open>Scoping of refunds, customers and orders\<close>

text \<open>
  Claim C5. A refund whose order id is not the id of any order of the cleaned order frame
  changes nothing: the run with the refund anywhere in the refund ledger gives the same
  rejected items, the same daily summary and the same order-level rows as the run
  without it.
\<close>

theorem refund_scoping:
  assumes "refund.order_id r \<notin>
             order.order_id ` set (orders_clean (clean_data cs data (json_normalize data)))"
  shows "main cs data (rs1 @ r # rs2) = main cs data (rs1 @ rs2)"
  using assms enriched_order_ids[of cs data] by (intro refund_not_valid_ignored) blast

theorem refund_scoping_witness:
  "refund.order_id refund_O9 \<notin>
      order.order_id ` set (orders_clean (clean_data [cust_C1] [order_O1] (json_normalize [order_O1])))
   \<and> main [cust_C1] [order_O1] ([] @ refund_O9 # [refund_O1])
       = main [cust_C1] [order_O1] ([] @ [refund_O1])"
proof -
  have "refund.order_id refund_O9 \<notin>
      order.order_id ` set (orders_clean (clean_data [cust_C1] [order_O1] (json_normalize [order_O1])))"
    by (simp add: clean_data_orders drop_duplicates_def refund_O9_def order_O1_def)
  then show ?thesis
    using refund_scoping[of refund_O9 "[cust_C1]" "[order_O1]" "[]" "[refund_O1]"] by blast
qed



text \<open>
  Claim C3, at the input where it fails. The file holds the same paid order twice.
  \<open>clean_data\<close> keeps one occurrence in the cleaned order frame, but the items come from
  every occurrence and are never joined to that frame: the order-level row sums the
  lines of both occurrences (gross revenue 40, four items sold), where the file with
  the order once gives 20 and two.
\<close>

theorem duplicate_order_items_counted:
  "orders_clean (clean_data [cust_C1] [order_O1, order_O1] (json_normalize [order_O1, order_O1]))
     = [order_O1]
   \<and> out_order_revenue (main [cust_C1] [order_O1, order_O1] []) = [row_O1_twice]
   \<and> out_order_revenue (main [cust_C1] [order_O1] []) = [row_O1]
   \<and> gross_revenue row_O1_twice = 40 \<and> gross_revenue row_O1 = 20"
  by code_simp

end
